theory Spec2Isabelle
  imports Complex_Main "HOL-Library.AList" "HOL-Library.Sublist"
begin

section \<open>Data model\<close>

text \<open>
  The deckbuilder is one React component (\<^verbatim>\<open>src/Deckbuilder.jsx\<close>). Its state variables
  become the fields of the record \<open>app\<close>; the values derived with \<^verbatim>\<open>useMemo\<close> become
  functions of that record; the actions become functions from a state to the next state
  (paired with the requests sent to the outside world where there are any).

  Modelling conventions.
  \<^item> JavaScript strings are \<open>string\<close>; characters are taken in the range of code units
    below 256.
  \<^item> Unit ids are strings: the deck is a JavaScript object, whose keys are strings, and
    \<^verbatim>\<open>deckItems\<close> compares them to \<^verbatim>\<open>x.id\<close> with \<^verbatim>\<open>===\<close>.
  \<^item> Points, counts and instants (milliseconds) are \<open>int\<close>; a field that may be
    \<^verbatim>\<open>null\<close> or missing is an \<open>option\<close>.
  \<^item> Effective-damage numbers are \<open>real\<close>; the rounding of JavaScript's doubles is not
    modelled, and no statement below depends on it.
  \<^item> The deck object is an association list in insertion order, which is the order
    \<^verbatim>\<open>Object.entries\<close> walks it in when no key is an array index; no statement below
    depends on that order.
  Fields of a catalog unit the component never computes with (year, set name, rarity)
  are left out.
\<close>

record catalog_unit =
  u_id :: string
  u_name :: "string option"
  u_nation :: "string option"
  u_type :: "string option"
  u_points :: "int option"
  u_abilities :: "string option"
  u_stats :: "nat \<Rightarrow> real option"

record ownership_rec =
  owned :: bool
  copies :: "int option"

record session_rec =
  access_token :: string
  user_id :: string

datatype faction_rule = axis_only | allies_only | mixed

datatype faction = Axis | Allies | Mixed

type_synonym deck_obj = "(string \<times> int) list"

record app =
  session :: "session_rec option"
  email :: string
  units :: "catalog_unit list"
  ownership :: "string \<Rightarrow> ownership_rec option"
  pointCap :: int
  factionRule :: faction_rule
  ownedOnly :: bool
  q :: string
  nation :: string
  type :: string
  deck :: deck_obj
  deckName :: string
  saving :: bool
  error :: string
  ok :: string
  cooldownUntil :: int
  cooldownLeft :: int

definition POINT_CAPS :: "int list" where
  "POINT_CAPS = [50, 80, 110, 150, 200, 250]"

definition DEFAULT_CAP :: int where
  "DEFAULT_CAP = 150"

definition DEFAULT_RULE :: faction_rule where
  "DEFAULT_RULE = axis_only"

text \<open>The initial values given to \<^verbatim>\<open>useState\<close>, with no stored cooldown.\<close>

definition init :: app where
  "init = \<lparr> session = None, email = [], units = [], ownership = (\<lambda>k. None),
     pointCap = DEFAULT_CAP, factionRule = DEFAULT_RULE, ownedOnly = True,
     q = [], nation = ''All'', type = ''All'', deck = [], deckName = ''My Axis 150'',
     saving = False, error = [], ok = [], cooldownUntil = 0, cooldownLeft = 0 \<rparr>"

section \<open>Small helpers shared by the component\<close>

text \<open>\<^verbatim>\<open>u.points||0\<close>: a missing or zero cost counts as zero.\<close>

definition pointsOf :: "catalog_unit \<Rightarrow> int" where
  "pointsOf u = (case u_points u of None \<Rightarrow> 0 | Some p \<Rightarrow> p)"

text \<open>\<^verbatim>\<open>deck[u.id] || 0\<close>, \<^verbatim>\<open>prev[u.id] || 0\<close>, \<^verbatim>\<open>next[u.id]||0\<close>.\<close>

definition inDeck :: "deck_obj \<Rightarrow> string \<Rightarrow> int" where
  "inDeck dk k = (case map_of dk k of None \<Rightarrow> 0 | Some c \<Rightarrow> c)"

text \<open>\<^verbatim>\<open>ownership[u.id]?.copies ?? 99\<close>.\<close>

definition maxCopies :: "(string \<Rightarrow> ownership_rec option) \<Rightarrow> catalog_unit \<Rightarrow> int" where
  "maxCopies own u =
     (case own (u_id u) of
        None \<Rightarrow> 99
      | Some r \<Rightarrow> (case copies r of None \<Rightarrow> 99 | Some c \<Rightarrow> c))"

definition axis :: "string list" where
  "axis = [''Germany'', ''Italy'', ''Japan'', ''Finland'', ''Romania'', ''Hungary'',
           ''Bulgaria'', ''Axis'']"

definition allies :: "string list" where
  "allies = [''USA'', ''United States'', ''United Kingdom'', ''UK'', ''Britain'',
             ''Soviet Union'', ''USSR'', ''France'', ''Canada'', ''Netherlands'', ''Poland'',
             ''Australia'', ''New Zealand'', ''Greece'', ''Norway'', ''Allies'']"

text \<open>\<^verbatim>\<open>set.has(n)\<close> for a nation that may be \<^verbatim>\<open>null\<close>.\<close>

definition has :: "string list \<Rightarrow> string option \<Rightarrow> bool" where
  "has names n = (case n of None \<Rightarrow> False | Some x \<Rightarrow> x \<in> set names)"

section \<open>Catalog filter pipeline\<close>

text \<open>
  \<^verbatim>\<open>toLowerCase\<close> on code units below 256: the letters A to Z and the accented capitals
  0xC0 to 0xDE (the multiplication sign 0xD7 apart) move up by 32.
\<close>

definition lowerChar :: "char \<Rightarrow> char" where
  "lowerChar c =
     (let n = (of_char c :: nat)
      in if (65 \<le> n \<and> n \<le> 90) \<or> (192 \<le> n \<and> n \<le> 222 \<and> n \<noteq> 215)
         then char_of (n + 32) else c)"

definition toLowerCase :: "string \<Rightarrow> string" where
  "toLowerCase t = map lowerChar t"

text \<open>\<^verbatim>\<open>t.includes(p)\<close>: \<open>p\<close> occurs in \<open>t\<close> as a contiguous run.\<close>

fun includes_str :: "string \<Rightarrow> string \<Rightarrow> bool" where
  "includes_str [] p = (p = [])"
| "includes_str (c # cs) p = (prefix p (c # cs) \<or> includes_str cs p)"

text \<open>\<^verbatim>\<open>f?.toLowerCase().includes(qq)\<close> for a field that may be \<^verbatim>\<open>null\<close>.\<close>

definition fieldIncludes :: "string option \<Rightarrow> string \<Rightarrow> bool" where
  "fieldIncludes f qq = (case f of None \<Rightarrow> False | Some t \<Rightarrow> includes_str (toLowerCase t) qq)"

text \<open>\<^verbatim>\<open>(ownership[u.id]?.owned) || (ownership[u.id]?.copies > 0)\<close>.\<close>

definition ownedOrCopies :: "(string \<Rightarrow> ownership_rec option) \<Rightarrow> catalog_unit \<Rightarrow> bool" where
  "ownedOrCopies own u =
     (case own (u_id u) of
        None \<Rightarrow> False
      | Some r \<Rightarrow> owned r \<or> (case copies r of None \<Rightarrow> False | Some c \<Rightarrow> 0 < c))"

definition filtered :: "app \<Rightarrow> catalog_unit list" where
  "filtered s =
     (let list0 = units s;
          list1 = (if q s \<noteq> []
                   then filter (\<lambda>u. fieldIncludes (u_name u) (toLowerCase (q s))
                                   \<or> fieldIncludes (u_abilities u) (toLowerCase (q s))) list0
                   else list0);
          list2 = (if nation s \<noteq> ''All''
                   then filter (\<lambda>u. u_nation u = Some (nation s)) list1 else list1);
          list3 = (if type s \<noteq> ''All''
                   then filter (\<lambda>u. u_type u = Some (type s)) list2 else list2);
          list4 = (if factionRule s \<noteq> mixed
                   then filter (\<lambda>u. if factionRule s = axis_only
                                     then has axis (u_nation u)
                                     else has allies (u_nation u)) list3
                   else list3);
          list5 = (if ownedOnly s then filter (ownedOrCopies (ownership s)) list4 else list4)
      in list5)"

section \<open>Totals derived from the deck\<close>

text \<open>
  \<^verbatim>\<open>deckItems\<close>: every deck entry is paired with the first catalog unit of that id, and
  the entries for which \<^verbatim>\<open>find\<close> returns nothing are dropped by \<^verbatim>\<open>.filter(x => x.unit)\<close>.
\<close>

definition deckItems :: "app \<Rightarrow> (catalog_unit \<times> int) list" where
  "deckItems s =
     List.map_filter
       (\<lambda>(unit_id, count).
          case find (\<lambda>x. u_id x = unit_id) (units s) of
            None \<Rightarrow> None
          | Some u \<Rightarrow> Some (u, count))
       (deck s)"

definition deckPoints :: "app \<Rightarrow> int" where
  "deckPoints s = foldl (\<lambda>acc (unit, count). acc + pointsOf unit * count) 0 (deckItems s)"

text \<open>\<^verbatim>\<open>Number(st[`effective_gunnerytotal_${r}`] || 0)\<close>.\<close>

definition eff :: "catalog_unit \<Rightarrow> nat \<Rightarrow> real" where
  "eff u r = (case u_stats u r of None \<Rightarrow> 0 | Some v \<Rightarrow> v)"

definition effectiveSumByRange :: "app \<Rightarrow> nat \<Rightarrow> real" where
  "effectiveSumByRange s r =
     foldl (\<lambda>out (unit, count). out + eff unit r * of_int count) 0 (deckItems s)"

definition nationsInDeck :: "app \<Rightarrow> string option list" where
  "nationsInDeck s = remdups (map (\<lambda>x. u_nation (fst x)) (deckItems s))"

definition factionOfDeck :: "app \<Rightarrow> faction" where
  "factionOfDeck s =
     (let allAxis = list_all (has axis) (nationsInDeck s);
          allAllies = list_all (has allies) (nationsInDeck s)
      in if allAxis then Axis else if allAllies then Allies else Mixed)"

section \<open>Deck actions and the add gate\<close>

definition addToDeck :: "catalog_unit \<Rightarrow> app \<Rightarrow> app" where
  "addToDeck u s =
     (let cur = inDeck (deck s) (u_id u)
      in if maxCopies (ownership s) u \<le> cur then s
         else s\<lparr> deck := AList.update (u_id u) (cur + 1) (deck s) \<rparr>)"

definition removeFromDeck :: "catalog_unit \<Rightarrow> app \<Rightarrow> app" where
  "removeFromDeck u s =
     (let cur = inDeck (deck s) (u_id u)
      in if cur \<le> 1 then s\<lparr> deck := AList.delete (u_id u) (deck s) \<rparr>
         else s\<lparr> deck := AList.update (u_id u) (cur - 1) (deck s) \<rparr>)"

definition clearDeck :: "app \<Rightarrow> app" where
  "clearDeck s = s\<lparr> deck := [] \<rparr>"

text \<open>The \<^verbatim>\<open>disabled\<close> flag of the \<^verbatim>\<open>+ Add\<close> button of a row of the unit list.\<close>

definition disabled :: "app \<Rightarrow> catalog_unit \<Rightarrow> bool" where
  "disabled s u =
     (maxCopies (ownership s) u \<le> inDeck (deck s) (u_id u)
      \<or> pointCap s < deckPoints s + pointsOf u
      \<or> (factionRule s \<noteq> mixed \<and> 0 < length (deckItems s)
          \<and> factionOfDeck s \<noteq> (if factionRule s = axis_only then Axis else Allies)))"

text \<open>
  What the user can do to the deck one unit at a time. A row of the unit list has a gated
  \<^verbatim>\<open>+ Add\<close> button and a \<^verbatim>\<open>-\<close> button that is disabled when the count is zero; a row of the
  deck panel has a \<^verbatim>\<open>+\<close> and a \<^verbatim>\<open>-\<close> button that are always enabled. Rows are named by
  their position in the rendered list; a click on a row that is not there does nothing.
\<close>

datatype deck_click = ListAdd nat | ListRemove nat | PanelAdd nat | PanelRemove nat

fun onClick :: "app \<Rightarrow> deck_click \<Rightarrow> app" where
  "onClick s (ListAdd i) =
     (if i < length (filtered s) \<and> \<not> disabled s (filtered s ! i)
      then addToDeck (filtered s ! i) s else s)"
| "onClick s (ListRemove i) =
     (if i < length (filtered s) \<and> inDeck (deck s) (u_id (filtered s ! i)) \<noteq> 0
      then removeFromDeck (filtered s ! i) s else s)"
| "onClick s (PanelAdd i) =
     (if i < length (deckItems s) then addToDeck (fst (deckItems s ! i)) s else s)"
| "onClick s (PanelRemove i) =
     (if i < length (deckItems s) then removeFromDeck (fst (deckItems s ! i)) s else s)"

definition onClicks :: "app \<Rightarrow> deck_click list \<Rightarrow> app" where
  "onClicks s cs = foldl onClick s cs"

section \<open>Saving the deck\<close>

text \<open>
  The two \<^verbatim>\<open>fetch\<close> calls of \<^verbatim>\<open>saveDeck\<close> go to the deck persister. Its answers are
  parameters of the model: a response that is not \<^verbatim>\<open>ok\<close> carries its body text, a good one
  to \<^verbatim>\<open>decks\<close> carries the id of the new row. The model returns the next state together
  with the requests that were sent, in order.
\<close>

datatype fetch_result = NotOk string | Ok string

datatype request =
    PostDecks string string faction int int faction_rule
  | PostDeckUnits string deck_obj

text \<open>
  \<^verbatim>\<open>formatError\<close> on an \<^verbatim>\<open>Error\<close> object with the given message and no \<^verbatim>\<open>msg\<close> property:
  the message, or the JSON text of the object when the message is empty.
\<close>

definition formatError :: "string \<Rightarrow> string" where
  "formatError m = (if m = [] then ''{}'' else m)"

text \<open>The \<^verbatim>\<open>catch\<close> and \<^verbatim>\<open>finally\<close> blocks of \<^verbatim>\<open>saveDeck\<close> after \<^verbatim>\<open>throw new Error(m)\<close>.\<close>

definition saveFailed :: "string \<Rightarrow> app \<Rightarrow> app" where
  "saveFailed m s = s\<lparr> error := formatError m, saving := False \<rparr>"

definition saveDeck :: "fetch_result \<Rightarrow> fetch_result \<Rightarrow> app \<Rightarrow> app \<times> request list" where
  "saveDeck deckRes du s =
     (let s1 = s\<lparr> saving := True, error := [], ok := [] \<rparr>
      in case session s of
           None \<Rightarrow> (saveFailed ''Sign in first (magic link)'' s1, [])
         | Some ses \<Rightarrow>
             if pointCap s < deckPoints s
             then (saveFailed ''Deck exceeds point cap'' s1, [])
             else if factionRule s = axis_only \<and> factionOfDeck s \<noteq> Axis
             then (saveFailed ''Deck violates Axis-only rule'' s1, [])
             else if factionRule s = allies_only \<and> factionOfDeck s \<noteq> Allies
             then (saveFailed ''Deck violates Allies-only rule'' s1, [])
             else
               (let r1 = PostDecks (user_id ses) (deckName s) (factionOfDeck s)
                           (deckPoints s) (pointCap s) (factionRule s)
                in case deckRes of
                     NotOk body \<Rightarrow> (saveFailed body s1, [r1])
                   | Ok deck_id \<Rightarrow>
                       if deck s = []
                       then (s1\<lparr> ok := ''Deck saved'', saving := False \<rparr>, [r1])
                       else
                         (let r2 = PostDeckUnits deck_id (deck s)
                          in case du of
                               NotOk body \<Rightarrow> (saveFailed body s1, [r1, r2])
                             | Ok _ \<Rightarrow>
                                 (s1\<lparr> ok := ''Deck saved'', saving := False \<rparr>, [r1, r2]))))"

section \<open>Greedy recommender\<close>

text \<open>\<^verbatim>\<open>(eff[0]+eff[1]+eff[2]+eff[3]) / Math.max(1, u.points||1)\<close>.\<close>

definition score :: "catalog_unit \<Rightarrow> real" where
  "score u =
     (eff u 0 + eff u 1 + eff u 2 + eff u 3)
       / of_int (max 1 (case u_points u of None \<Rightarrow> 1 | Some p \<Rightarrow> if p = 0 then 1 else p))"

text \<open>
  \<^verbatim>\<open>.sort((a,b)=>b.score-a.score)\<close>: descending by score and stable, as \<open>sort_key\<close> is on
  the negated score.
\<close>

definition scored :: "app \<Rightarrow> catalog_unit list" where
  "scored s = sort_key (\<lambda>u. - score u) (filtered s)"

text \<open>
  The inner \<^verbatim>\<open>while\<close> loop for one candidate, on the pair of \<^verbatim>\<open>next\<close> and \<^verbatim>\<open>pts\<close>. Each
  turn that does not leave the loop raises the candidate's count, which is below the
  limit, so the loop ends.
\<close>

function addCopies :: "int \<Rightarrow> int \<Rightarrow> catalog_unit \<Rightarrow> deck_obj \<times> int \<Rightarrow> deck_obj \<times> int" where
  "addCopies cap limit u (nxt, spent) =
     (if spent + pointsOf u \<le> cap then
        (if limit \<le> inDeck nxt (u_id u) then (nxt, spent)
         else if cap - (spent + pointsOf u) < 3
         then (AList.update (u_id u) (inDeck nxt (u_id u) + 1) nxt, spent + pointsOf u)
         else addCopies cap limit u
                (AList.update (u_id u) (inDeck nxt (u_id u) + 1) nxt, spent + pointsOf u))
      else (nxt, spent))"
  by pat_completeness auto
termination
  by (relation "measure (\<lambda>(cap, limit, u, nxt, spent). nat (limit - inDeck nxt (u_id u)))")
     (auto simp: inDeck_def update_conv')

declare addCopies.simps [simp del]

text \<open>The outer \<^verbatim>\<open>for\<close> loop over the scored candidates.\<close>

fun recommendLoop ::
  "int \<Rightarrow> (string \<Rightarrow> ownership_rec option) \<Rightarrow> catalog_unit list \<Rightarrow> deck_obj \<times> int
     \<Rightarrow> deck_obj \<times> int" where
  "recommendLoop cap own [] st = st"
| "recommendLoop cap own (u # rest) st =
     (let st' = addCopies cap (maxCopies own u) u st
      in if cap - 1 \<le> snd st' then st' else recommendLoop cap own rest st')"

definition recommended :: "app \<Rightarrow> deck_obj \<times> int" where
  "recommended s = recommendLoop (pointCap s) (ownership s) (scored s) ([], 0)"

definition recommend :: "app \<Rightarrow> app" where
  "recommend s = s\<lparr> deck := fst (recommended s) \<rparr>"

section \<open>Wait-time parser\<close>

text \<open>
  The two regular expressions of \<^verbatim>\<open>parseWaitSeconds\<close> have one shape,
  \<^verbatim>\<open>/(\d+)\s*(?:w1|w2|w3)\b/i\<close>, and differ in the unit words. The matcher below follows
  the backtracking order of a JavaScript regular expression for that shape: the leftmost
  start, the longest run of digits first, the longest run of white space first, the unit
  words in the order written.
\<close>

definition isDigit :: "char \<Rightarrow> bool" where
  "isDigit c = (let n = (of_char c :: nat) in 48 \<le> n \<and> n \<le> 57)"

text \<open>\<^verbatim>\<open>\s\<close> on code units below 256: tab, line feed, vertical tab, form feed, carriage
  return, space and the no-break space.\<close>

definition isSpace :: "char \<Rightarrow> bool" where
  "isSpace c = (let n = (of_char c :: nat) in (9 \<le> n \<and> n \<le> 13) \<or> n = 32 \<or> n = 160)"

text \<open>\<^verbatim>\<open>\w\<close>: letters, digits and the underscore.\<close>

definition isWordChar :: "char \<Rightarrow> bool" where
  "isWordChar c =
     (let n = (of_char c :: nat)
      in (48 \<le> n \<and> n \<le> 57) \<or> (65 \<le> n \<and> n \<le> 90) \<or> n = 95 \<or> (97 \<le> n \<and> n \<le> 122))"

text \<open>The \<^verbatim>\<open>i\<close> flag: a lower-case letter of the pattern matches itself and its capital.\<close>

definition asciiLower :: "char \<Rightarrow> char" where
  "asciiLower c =
     (let n = (of_char c :: nat) in if 65 \<le> n \<and> n \<le> 90 then char_of (n + 32) else c)"

text \<open>A unit word at the head of the input; the result is the input left after it.\<close>

fun matchWord :: "string \<Rightarrow> string \<Rightarrow> string option" where
  "matchWord [] inp = Some inp"
| "matchWord (l # ls) [] = None"
| "matchWord (l # ls) (c # cs) = (if asciiLower c = l then matchWord ls cs else None)"

text \<open>
  \<^verbatim>\<open>\b\<close> after a unit word: the character before it is a letter, so it holds when the
  input ends there or goes on with a character that is not a word character.
\<close>

definition boundary :: "string \<Rightarrow> bool" where
  "boundary inp = (case inp of [] \<Rightarrow> True | c # _ \<Rightarrow> \<not> isWordChar c)"

text \<open>\<^verbatim>\<open>(?:w1|w2|w3)\b\<close>.\<close>

fun matchUnit :: "string list \<Rightarrow> string \<Rightarrow> bool" where
  "matchUnit [] inp = False"
| "matchUnit (w # ws) inp =
     (case matchWord w inp of
        Some rest \<Rightarrow> (if boundary rest then True else matchUnit ws inp)
      | None \<Rightarrow> matchUnit ws inp)"

text \<open>\<^verbatim>\<open>\s*\<close> and what follows it.\<close>

fun matchSpaces :: "string list \<Rightarrow> string \<Rightarrow> bool" where
  "matchSpaces ws [] = matchUnit ws []"
| "matchSpaces ws (c # cs) =
     (if isSpace c then (if matchSpaces ws cs then True else matchUnit ws (c # cs))
      else matchUnit ws (c # cs))"

text \<open>
  \<^verbatim>\<open>(\d+)\<close> and what follows it, from one start position; \<open>acc\<close> holds the digits taken
  so far. The result is the captured group.
\<close>

fun matchDigits :: "string list \<Rightarrow> string \<Rightarrow> string \<Rightarrow> string option" where
  "matchDigits ws acc [] = (if acc \<noteq> [] \<and> matchSpaces ws [] then Some acc else None)"
| "matchDigits ws acc (c # cs) =
     (if isDigit c then
        (case matchDigits ws (acc @ [c]) cs of
           Some d \<Rightarrow> Some d
         | None \<Rightarrow> (if acc \<noteq> [] \<and> matchSpaces ws (c # cs) then Some acc else None))
      else (if acc \<noteq> [] \<and> matchSpaces ws (c # cs) then Some acc else None))"

text \<open>\<^verbatim>\<open>msg.match(re)\<close>: the captured group of the leftmost match, if there is one.\<close>

fun regexMatch :: "string list \<Rightarrow> string \<Rightarrow> string option" where
  "regexMatch ws [] = None"
| "regexMatch ws (c # cs) =
     (case matchDigits ws [] (c # cs) of
        Some d \<Rightarrow> Some d
      | None \<Rightarrow> regexMatch ws cs)"

text \<open>\<^verbatim>\<open>parseInt(d, 10)\<close> on a run of decimal digits.\<close>

definition parseInt :: "string \<Rightarrow> int" where
  "parseInt d = foldl (\<lambda>n c. 10 * n + (int (of_char c) - 48)) 0 d"

text \<open>
  The argument is \<open>None\<close> when \<^verbatim>\<open>msg\<close> is not a string; the result is \<open>None\<close> for
  \<^verbatim>\<open>null\<close>.
\<close>

definition parseWaitSeconds :: "string option \<Rightarrow> int option" where
  "parseWaitSeconds msg =
     (case msg of
        None \<Rightarrow> None
      | Some m \<Rightarrow>
          if m = [] then None
          else
            (case regexMatch [''second'', ''sec'', ''s''] m of
               Some d \<Rightarrow> Some (parseInt d)
             | None \<Rightarrow>
                 (case regexMatch [''minute'', ''min'', ''m''] m of
                    Some d \<Rightarrow> Some (parseInt d * 60)
                  | None \<Rightarrow> None)))"

text \<open>\<^verbatim>\<open>e.wait ?? 60\<close> at the rate-limit catch site, for an error built from the message.\<close>

definition waitOrDefault :: "string option \<Rightarrow> int" where
  "waitOrDefault msg = (case parseWaitSeconds msg of None \<Rightarrow> 60 | Some w \<Rightarrow> w)"

section \<open>Cooldown timer and sign-in\<close>

text \<open>\<^verbatim>\<open>Math.max(0, Math.ceil((cooldownUntil - Date.now()) / 1000))\<close>.\<close>

definition countdown :: "int \<Rightarrow> int \<Rightarrow> int" where
  "countdown until now = max 0 \<lceil>real_of_int (until - now) / 1000\<rceil>"

text \<open>One run of \<^verbatim>\<open>tick\<close> at the instant \<open>now\<close>.\<close>

definition tick :: "int \<Rightarrow> app \<Rightarrow> app" where
  "tick now s = s\<lparr> cooldownLeft := countdown (cooldownUntil s) now \<rparr>"

text \<open>
  The effect that runs at mount and after every change of \<^verbatim>\<open>cooldownUntil\<close>, at the
  instant \<open>now\<close>. When it starts the interval, \<^verbatim>\<open>tick\<close> runs again every 1000 ms.
\<close>

definition cooldownEffect :: "int \<Rightarrow> app \<Rightarrow> app" where
  "cooldownEffect now s = (if now < cooldownUntil s then tick now s else s\<lparr> cooldownLeft := 0 \<rparr>)"

text \<open>Decimal text of a number, as a template literal prints it.\<close>

fun showNat :: "nat \<Rightarrow> string" where
  "showNat n =
     (if n < 10 then [char_of (48 + n)] else showNat (n div 10) @ [char_of (48 + n mod 10)])"

definition showInt :: "int \<Rightarrow> string" where
  "showInt i = (if i < 0 then CHR ''-'' # showNat (nat (- i)) else showNat (nat i))"

text \<open>
  What \<^verbatim>\<open>auth.signInMagic\<close> does: it resolves, or it throws an error carrying the status
  code, the \<^verbatim>\<open>error_code\<close> and the \<^verbatim>\<open>msg\<close> of the payload, or the \<^verbatim>\<open>fetch\<close> itself throws.
\<close>

datatype signin_result =
    LinkSent
  | Rejected int "string option" "string option"
  | FetchFailed string

text \<open>
  \<^verbatim>\<open>onMagicSubmit\<close>; \<open>now\<close> is the instant read in the \<^verbatim>\<open>catch\<close> block. The second
  component lists the emails passed to the sign-in collaborator. The sign-in button itself
  is disabled when the email is empty or the countdown is positive.
\<close>

definition signInDisabled :: "app \<Rightarrow> bool" where
  "signInDisabled s = (email s = [] \<or> 0 < cooldownLeft s)"

definition onMagicSubmit :: "signin_result \<Rightarrow> int \<Rightarrow> app \<Rightarrow> app \<times> string list" where
  "onMagicSubmit res now s =
     (let s1 = s\<lparr> error := [], ok := [] \<rparr>
      in if email s = [] then (s1\<lparr> error := ''Enter an email first'' \<rparr>, [])
         else if 0 < cooldownLeft s
         then (s1\<lparr> error := ''Please wait '' @ showInt (cooldownLeft s)
                               @ ''s before requesting another link.'' \<rparr>, [])
         else
           (case res of
              LinkSent \<Rightarrow> (s1\<lparr> ok := ''Magic link sent. Check your email.'' \<rparr>, [email s])
            | Rejected code error_code msg \<Rightarrow>
                if code = 429 \<or> error_code = Some ''over_email_send_rate_limit''
                then
                  (let wait = waitOrDefault msg;
                       until = now + wait * 1000
                   in (s1\<lparr> cooldownUntil := until,
                            error := ''Too many requests. Try again in '' @ showInt wait @ ''s.'' \<rparr>,
                       [email s]))
                else
                  (s1\<lparr> error := (case msg of None \<Rightarrow> ''Sign-in failed''
                                    | Some m \<Rightarrow> if m = [] then ''Sign-in failed'' else m) \<rparr>,
                   [email s])
            | FetchFailed m \<Rightarrow> (s1\<lparr> error := formatError m \<rparr>, [email s])))"

section \<open>The filter pipeline in the words of its specification\<close>

text \<open>
  A case-insensitive substring match: the search text, letter case set aside, occurs as a
  contiguous run in the field. A field that is \<^verbatim>\<open>null\<close> matches nothing.
\<close>

definition textMatches :: "string \<Rightarrow> string option \<Rightarrow> bool" where
  "textMatches searchText field =
     (case field of
        None \<Rightarrow> False
      | Some t \<Rightarrow> sublist (toLowerCase searchText) (toLowerCase t))"

text \<open>A unit passes every active stage; a stage whose control is empty or default is idle.\<close>

definition passesStages :: "app \<Rightarrow> catalog_unit \<Rightarrow> bool" where
  "passesStages s u =
     ((if q s = [] then True
       else textMatches (q s) (u_name u) \<or> textMatches (q s) (u_abilities u))
      \<and> (if nation s = ''All'' then True else u_nation u = Some (nation s))
      \<and> (if type s = ''All'' then True else u_type u = Some (type s))
      \<and> (case factionRule s of
            axis_only \<Rightarrow> has axis (u_nation u)
          | allies_only \<Rightarrow> has allies (u_nation u)
          | mixed \<Rightarrow> True)
      \<and> (if ownedOnly s
          then (\<exists>r. ownership s (u_id u) = Some r
                    \<and> (owned r \<or> (\<exists>c. copies r = Some c \<and> 0 < c)))
          else True))"

section \<open>The recommender's loops told as a walk\<close>

text \<open>
  Three notions in which the loops of \<^verbatim>\<open>recommend\<close> are described, to be compared with the
  loops themselves. The number of copies one run of the inner loop adds for its candidate
  is read off its result.
\<close>

definition copiesAdded :: "int \<Rightarrow> int \<Rightarrow> catalog_unit \<Rightarrow> deck_obj \<times> int \<Rightarrow> int" where
  "copiesAdded cap limit u st =
     inDeck (fst (addCopies cap limit u st)) (u_id u) - inDeck (fst st) (u_id u)"

text \<open>The state after the first \<open>i\<close> candidates have each had their run of the inner loop.\<close>

definition afterCandidates ::
  "int \<Rightarrow> (string \<Rightarrow> ownership_rec option) \<Rightarrow> catalog_unit list \<Rightarrow> deck_obj \<times> int \<Rightarrow> nat
     \<Rightarrow> deck_obj \<times> int" where
  "afterCandidates cap own us st i =
     foldl (\<lambda>st' u. addCopies cap (maxCopies own u) u st') st (take i us)"

text \<open>
  How many candidates get a run: up to and including the first one whose run leaves the
  points spent at the cap less 1 or above, and all of them when there is no such
  candidate.
\<close>

definition candidatesTaken ::
  "int \<Rightarrow> (string \<Rightarrow> ownership_rec option) \<Rightarrow> catalog_unit list \<Rightarrow> deck_obj \<times> int \<Rightarrow> nat" where
  "candidatesTaken cap own us st =
     (case find (\<lambda>i. cap - 1 \<le> snd (afterCandidates cap own us st i)) [1..<Suc (length us)] of
        None \<Rightarrow> length us
      | Some i \<Rightarrow> i)"

section \<open>Example data\<close>

definition bismarck :: catalog_unit where
  "bismarck = \<lparr> u_id = ''bismarck'', u_name = Some ''Bismarck'', u_nation = Some ''Germany'',
     u_type = Some ''Ship'', u_points = Some 100, u_abilities = Some ''Flagship'',
     u_stats = (\<lambda>r. if r = 0 then Some 5 else None) \<rparr>"

definition scharnhorst :: catalog_unit where
  "scharnhorst = \<lparr> u_id = ''scharnhorst'', u_name = Some ''Scharnhorst'',
     u_nation = Some ''Germany'', u_type = Some ''Ship'', u_points = Some 50,
     u_abilities = None, u_stats = (\<lambda>r. if r = 0 then Some 4 else None) \<rparr>"

definition pt_boat :: catalog_unit where
  "pt_boat = \<lparr> u_id = ''pt_boat'', u_name = Some ''PT Boat'', u_nation = Some ''USA'',
     u_type = Some ''Ship'', u_points = Some 1, u_abilities = None,
     u_stats = (\<lambda>r. if r = 0 then Some 1 else None) \<rparr>"

definition destroyer :: catalog_unit where
  "destroyer = \<lparr> u_id = ''destroyer'', u_name = Some ''Z-class Destroyer'',
     u_nation = Some ''Germany'', u_type = Some ''Ship'', u_points = Some 10,
     u_abilities = None, u_stats = (\<lambda>r. if r = 0 then Some 10 else None) \<rparr>"

definition cruiser :: catalog_unit where
  "cruiser = \<lparr> u_id = ''cruiser'', u_name = Some ''Prinz Eugen'',
     u_nation = Some ''Germany'', u_type = Some ''Ship'', u_points = Some 20,
     u_abilities = None, u_stats = (\<lambda>r. if r = 0 then Some 40 else None) \<rparr>"

text \<open>A signed-in player, everything else as at start.\<close>

definition signedIn :: app where
  "signedIn = init\<lparr> session := Some \<lparr> access_token = ''token'', user_id = ''player'' \<rparr> \<rparr>"

text \<open>The player owns four copies of the one unit of the catalog; cap 150, Axis only.\<close>

definition exOwnsFour :: app where
  "exOwnsFour = signedIn\<lparr> units := [bismarck],
     ownership := [''bismarck'' \<mapsto> \<lparr> owned = True, copies = Some 4 \<rparr>] \<rparr>"

text \<open>The player owns three copies of a 50-point unit and the deck holds all three; cap 250.\<close>

definition exThreeOfThree :: app where
  "exThreeOfThree = signedIn\<lparr> units := [scharnhorst],
     ownership := [''scharnhorst'' \<mapsto> \<lparr> owned = True, copies = Some 3 \<rparr>],
     pointCap := 250, deck := [(''scharnhorst'', 3)] \<rparr>"

text \<open>Two copies of a 100-point unit under cap 150, and an entry the catalog does not know.\<close>

definition exOverCap :: app where
  "exOverCap = signedIn\<lparr> units := [bismarck],
     deck := [(''bismarck'', 2), (''ghost'', 7)] \<rparr>"

text \<open>An empty deck under the Allies-only rule.\<close>

definition exEmptyAllies :: app where
  "exEmptyAllies = signedIn\<lparr> factionRule := allies_only \<rparr>"

text \<open>One 50-point unit under cap 50, any faction, owned-only switched off.\<close>

definition exCap50 :: app where
  "exCap50 = signedIn\<lparr> units := [scharnhorst], pointCap := 50, factionRule := mixed,
     ownedOnly := False \<rparr>"

text \<open>
  A 10-point unit of score 1 listed before a 20-point unit of score 2; cap 50, any
  faction, owned-only switched off.
\<close>

definition exTwoCandidates :: app where
  "exTwoCandidates = signedIn\<lparr> units := [destroyer, cruiser], pointCap := 50,
     factionRule := mixed, ownedOnly := False \<rparr>"

text \<open>Ninety-nine copies of a 1-point unit with no ownership record; cap 150.\<close>

definition exNinetyNine :: app where
  "exNinetyNine = signedIn\<lparr> units := [pt_boat], factionRule := mixed, ownedOnly := False,
     deck := [(''pt_boat'', 99)] \<rparr>"

text \<open>A search for \<^verbatim>\<open>BIS\<close> over a catalog of two owned units; Axis only, owned only.\<close>

definition exSearch :: app where
  "exSearch = signedIn\<lparr> units := [pt_boat, bismarck], q := ''BIS'',
     ownership := [''bismarck'' \<mapsto> \<lparr> owned = True, copies = None \<rparr>,
                   ''pt_boat'' \<mapsto> \<lparr> owned = False, copies = Some 2 \<rparr>] \<rparr>"

text \<open>An email typed in and a stored deadline at instant 1500.\<close>

definition exCooling :: app where
  "exCooling = init\<lparr> email := ''a@b.c'', cooldownUntil := 1500 \<rparr>"

section \<open>Facts about the helpers\<close>

lemma inDeck_update:
  "inDeck (AList.update k v dk) k' = (if k' = k then v else inDeck dk k')"
  by (simp add: inDeck_def update_conv')

lemma includes_str_sublist: "includes_str t p \<longleftrightarrow> sublist p t"
  by (induction t) (simp_all add: sublist_Cons_right)

lemma fieldIncludes_textMatches:
  "fieldIncludes f (toLowerCase qq) \<longleftrightarrow> textMatches qq f"
  by (simp add: fieldIncludes_def textMatches_def includes_str_sublist split: option.splits)

lemma ownedOrCopies_iff:
  "ownedOrCopies own u \<longleftrightarrow>
     (\<exists>r. own (u_id u) = Some r \<and> (owned r \<or> (\<exists>c. copies r = Some c \<and> 0 < c)))"
  by (auto simp: ownedOrCopies_def split: option.splits)

section \<open>Copy cap\<close>

text \<open>
  Claim C6. If the ownership record of a unit has \<open>copies = 3\<close> and the deck holds three
  copies of it, the \<^verbatim>\<open>+ Add\<close> button of the unit is disabled, and \<^verbatim>\<open>addToDeck\<close> returns
  the state it was given: the count stays at three.
\<close>

theorem copy_cap_reached_blocks_add:
  assumes "ownership s (u_id u) = Some r" and "copies r = Some 3"
    and "inDeck (deck s) (u_id u) = 3"
  shows "disabled s u \<and> addToDeck u s = s \<and> inDeck (deck (addToDeck u s)) (u_id u) = 3"
  using assms by (simp add: disabled_def addToDeck_def maxCopies_def)

theorem copy_cap_reached_blocks_add_witness:
  "ownership exThreeOfThree (u_id scharnhorst) = Some \<lparr> owned = True, copies = Some 3 \<rparr>
   \<and> inDeck (deck exThreeOfThree) (u_id scharnhorst) = 3
   \<and> disabled exThreeOfThree scharnhorst
   \<and> addToDeck scharnhorst exThreeOfThree = exThreeOfThree
   \<and> inDeck (deck (addToDeck scharnhorst exThreeOfThree)) (u_id scharnhorst) = 3"
  using copy_cap_reached_blocks_add
          [of exThreeOfThree scharnhorst "\<lparr> owned = True, copies = Some 3 \<rparr>"]
  by (simp add: exThreeOfThree_def signedIn_def init_def scharnhorst_def inDeck_def)

section \<open>Deck entries the catalog does not know\<close>

lemma map_filter_known_entries:
  "List.map_filter
     (\<lambda>(k, c). case find (\<lambda>x. u_id x = k) us of None \<Rightarrow> None | Some u \<Rightarrow> Some (u, c))
     (filter (\<lambda>e. fst e \<in> u_id ` set us) dk)
   = List.map_filter
       (\<lambda>(k, c). case find (\<lambda>x. u_id x = k) us of None \<Rightarrow> None | Some u \<Rightarrow> Some (u, c))
       dk"
proof (induction dk)
  case Nil
  show ?case by simp
next
  case (Cons e dk)
  obtain k c where e: "e = (k, c)" by (cases e)
  show ?case
  proof (cases "k \<in> u_id ` set us")
    case True
    with Cons e show ?thesis by (simp split: option.splits)
  next
    case False
    then have "find (\<lambda>x. u_id x = k) us = None"
      by (auto simp: find_None_iff)
    with Cons e False show ?thesis by simp
  qed
qed

lemma deckItems_known_entries:
  "deckItems (s\<lparr> deck := filter (\<lambda>e. fst e \<in> u_id ` set (units s)) (deck s) \<rparr>) = deckItems s"
  by (simp add: deckItems_def map_filter_known_entries)

text \<open>
  Claim C10. Deck entries whose id does not occur in the catalog are ignored by every
  derived total: the point total, each per-range effective-damage sum and the faction
  classification of a deck are those of the deck with all such entries taken out.
\<close>

theorem unknown_entries_ignored:
  "deckPoints (s\<lparr> deck := filter (\<lambda>e. fst e \<in> u_id ` set (units s)) (deck s) \<rparr>) = deckPoints s
   \<and> effectiveSumByRange (s\<lparr> deck := filter (\<lambda>e. fst e \<in> u_id ` set (units s)) (deck s) \<rparr>) r
       = effectiveSumByRange s r
   \<and> factionOfDeck (s\<lparr> deck := filter (\<lambda>e. fst e \<in> u_id ` set (units s)) (deck s) \<rparr>)
       = factionOfDeck s"
  by (simp add: deckPoints_def effectiveSumByRange_def factionOfDeck_def nationsInDeck_def
      deckItems_known_entries)

theorem unknown_entries_ignored_witness:
  "filter (\<lambda>e. fst e \<in> u_id ` set (units exOverCap)) (deck exOverCap) = [(''bismarck'', 2)]
   \<and> deckPoints exOverCap = 200
   \<and> effectiveSumByRange exOverCap 0 = 10
   \<and> factionOfDeck exOverCap = Axis"
proof -
  have known: "filter (\<lambda>e. fst e \<in> u_id ` set (units exOverCap)) (deck exOverCap)
                 = [(''bismarck'', 2)]"
    by (simp add: exOverCap_def signedIn_def init_def bismarck_def)
  have items: "deckItems (exOverCap\<lparr> deck := [(''bismarck'', 2)] \<rparr>) = [(bismarck, 2)]"
    by (simp add: deckItems_def exOverCap_def signedIn_def init_def bismarck_def)
  have "deckPoints (exOverCap\<lparr> deck := [(''bismarck'', 2)] \<rparr>) = 200"
    and "effectiveSumByRange (exOverCap\<lparr> deck := [(''bismarck'', 2)] \<rparr>) 0 = 10"
    and "factionOfDeck (exOverCap\<lparr> deck := [(''bismarck'', 2)] \<rparr>) = Axis"
    by (simp_all add: deckPoints_def effectiveSumByRange_def factionOfDeck_def
        nationsInDeck_def items pointsOf_def eff_def has_def axis_def bismarck_def)
  with known unknown_entries_ignored [of exOverCap 0] show ?thesis
    by simp
qed

section \<open>The filter pipeline meets its specification\<close>

text \<open>
  Claim C8. The filter pipeline returns the units of the catalog, in catalog order, that
  pass every active stage: the case-insensitive substring match of the search text
  against the name or the abilities, the nation unless it is \<^verbatim>\<open>All\<close>, the type unless it
  is \<^verbatim>\<open>All\<close>, membership of the nation in the Axis or Allies set under the Axis-only or
  Allies-only rule, and, with owned-only on, an ownership record that is owned or has a
  positive number of copies.
\<close>

theorem filtered_keeps_passing_units: "filtered s = filter (passesStages s) (units s)"
proof -
  have "filtered s = filter (\<lambda>u.
      (q s = [] \<or> fieldIncludes (u_name u) (toLowerCase (q s))
                 \<or> fieldIncludes (u_abilities u) (toLowerCase (q s)))
      \<and> (nation s = ''All'' \<or> u_nation u = Some (nation s))
      \<and> (type s = ''All'' \<or> u_type u = Some (type s))
      \<and> (factionRule s = mixed \<or> (if factionRule s = axis_only then has axis (u_nation u)
                                      else has allies (u_nation u)))
      \<and> (\<not> ownedOnly s \<or> ownedOrCopies (ownership s) u)) (units s)"
    by (simp add: filtered_def Let_def conj_commute conj_left_commute)
  also have "\<dots> = filter (passesStages s) (units s)"
    by (rule filter_cong [OF refl])
       (cases "factionRule s";
        simp add: passesStages_def fieldIncludes_textMatches ownedOrCopies_iff)
  finally show ?thesis .
qed

theorem filtered_keeps_passing_units_witness:
  "map u_id (filter (passesStages exSearch) (units exSearch)) = [''bismarck'']"
proof -
  have "map u_id (filtered exSearch) = [''bismarck'']"
    by code_simp
  with filtered_keeps_passing_units [of exSearch] show ?thesis
    by simp
qed

section \<open>Save-time validation\<close>

text \<open>
  Claim C7. With a session present (the Save button is disabled without one, and
  \<^verbatim>\<open>saveDeck\<close> checks the session before anything else), saving a deck whose points exceed
  the cap, or whose faction classification is not the one the Axis-only or Allies-only
  rule asks for, fails with the validation error of the first check that fails. No
  request reaches the persister, the error message is shown as thrown, no success message
  is shown, and the deck is left as it was.
\<close>

theorem saveDeck_rejects_invalid_deck:
  assumes "session s = Some ses"
    and "pointCap s < deckPoints s
     \<or> (factionRule s = axis_only \<and> factionOfDeck s \<noteq> Axis)
     \<or> (factionRule s = allies_only \<and> factionOfDeck s \<noteq> Allies)"
  shows "snd (saveDeck deckRes du s) = []
     \<and> deck (fst (saveDeck deckRes du s)) = deck s
     \<and> ok (fst (saveDeck deckRes du s)) = []
     \<and> saving (fst (saveDeck deckRes du s)) = False
     \<and> error (fst (saveDeck deckRes du s)) =
         (if pointCap s < deckPoints s then ''Deck exceeds point cap''
          else if factionRule s = axis_only then ''Deck violates Axis-only rule''
          else ''Deck violates Allies-only rule'')"
  using assms
  by (auto simp: saveDeck_def saveFailed_def formatError_def Let_def)

theorem saveDeck_rejects_invalid_deck_witness:
  "session exOverCap = Some \<lparr> access_token = ''token'', user_id = ''player'' \<rparr>
   \<and> pointCap exOverCap < deckPoints exOverCap
   \<and> snd (saveDeck (Ok ''deck-1'') (Ok []) exOverCap) = []
   \<and> deck (fst (saveDeck (Ok ''deck-1'') (Ok []) exOverCap)) = deck exOverCap
   \<and> error (fst (saveDeck (Ok ''deck-1'') (Ok []) exOverCap)) = ''Deck exceeds point cap''"
proof -
  have ses: "session exOverCap = Some \<lparr> access_token = ''token'', user_id = ''player'' \<rparr>"
    by (simp add: exOverCap_def signedIn_def)
  have over: "pointCap exOverCap < deckPoints exOverCap"
    by code_simp
  from saveDeck_rejects_invalid_deck [OF ses disjI1 [OF over], of "Ok ''deck-1''" "Ok []"]
    ses over
  show ?thesis by simp
qed

text \<open>Without a session the first check of \<^verbatim>\<open>saveDeck\<close> fails, whatever the deck is.\<close>

lemma saveDeck_without_session:
  "session s = None \<Longrightarrow>
     snd (saveDeck deckRes du s) = []
     \<and> deck (fst (saveDeck deckRes du s)) = deck s
     \<and> error (fst (saveDeck deckRes du s)) = ''Sign in first (magic link)''"
  by (simp add: saveDeck_def saveFailed_def formatError_def Let_def)

text \<open>
  Claim C4. Saving an empty deck raises no faction violation under any faction rule. The
  component does otherwise under the Allies-only rule: an empty deck classifies as Axis,
  and the save of the signed-in player stops with the Allies-only error before any
  request is sent.
\<close>

theorem saveDeck_empty_deck_allies_only_fails:
  "deck exEmptyAllies = []
   \<and> factionOfDeck exEmptyAllies = Axis
   \<and> snd (saveDeck (Ok ''deck-1'') (Ok []) exEmptyAllies) = []
   \<and> error (fst (saveDeck (Ok ''deck-1'') (Ok []) exEmptyAllies))
       = ''Deck violates Allies-only rule''"
  by code_simp

text \<open>The add gate, for its part, raises no faction objection on an empty deck.\<close>

lemma disabled_empty_deck:
  "deck s = [] \<Longrightarrow>
     disabled s u \<longleftrightarrow> maxCopies (ownership s) u \<le> 0 \<or> pointCap s < pointsOf u"
  by (simp add: disabled_def deckItems_def deckPoints_def inDeck_def)

section \<open>The point cap under clicks\<close>

lemma foldl_points:
  "foldl (\<lambda>acc (unit, count). acc + pointsOf unit * count) a xs
     = a + sum_list (map (\<lambda>(unit, count). pointsOf unit * count) xs)"
  by (induction xs arbitrary: a) (auto simp: algebra_simps)

lemma deckPoints_sum:
  "deckPoints s = sum_list (map (\<lambda>(unit, count). pointsOf unit * count) (deckItems s))"
  by (simp add: deckPoints_def foldl_points)

lemma filtered_subset: "set (filtered s) \<subseteq> set (units s)"
  by (auto simp: filtered_def Let_def)

lemma find_distinct_id:
  "distinct (map u_id us) \<Longrightarrow> u \<in> set us \<Longrightarrow> find (\<lambda>x. u_id x = u_id u) us = Some u"
  by (induction us) auto

lemma points_after_update:
  "sum_list (map (\<lambda>(unit, count). pointsOf unit * count)
      (List.map_filter
         (\<lambda>(k, c). case find (\<lambda>x. u_id x = k) us of None \<Rightarrow> None | Some u \<Rightarrow> Some (u, c))
         (AList.update k (inDeck dk k + 1) dk)))
   = sum_list (map (\<lambda>(unit, count). pointsOf unit * count)
      (List.map_filter
         (\<lambda>(k, c). case find (\<lambda>x. u_id x = k) us of None \<Rightarrow> None | Some u \<Rightarrow> Some (u, c))
         dk))
     + (case find (\<lambda>x. u_id x = k) us of None \<Rightarrow> 0 | Some u \<Rightarrow> pointsOf u)"
proof (induction dk)
  case Nil
  show ?case by (simp add: inDeck_def split: option.splits)
next
  case (Cons e dk)
  obtain k' c' where e: "e = (k', c')" by (cases e)
  show ?case
  proof (cases "k' = k")
    case True
    with e show ?thesis
      by (simp add: inDeck_def algebra_simps split: option.splits)
  next
    case False
    then have "inDeck (e # dk) k = inDeck dk k"
      using e by (simp add: inDeck_def)
    with Cons False e show ?thesis
      by (simp split: option.splits)
  qed
qed

text \<open>One more copy costs the points of the catalog unit that carries the id.\<close>

lemma deckPoints_addToDeck:
  "deckPoints (addToDeck u s)
     = (if maxCopies (ownership s) u \<le> inDeck (deck s) (u_id u) then deckPoints s
        else deckPoints s
             + (case find (\<lambda>x. u_id x = u_id u) (units s) of
                  None \<Rightarrow> 0
                | Some u' \<Rightarrow> pointsOf u'))"
  by (simp add: addToDeck_def Let_def deckPoints_sum deckItems_def points_after_update)

text \<open>
  The gated \<^verbatim>\<open>+ Add\<close> button of the unit list keeps the deck within the cap, when the ids
  of the catalog are distinct.
\<close>

lemma list_add_keeps_point_cap:
  assumes "distinct (map u_id (units s))" and "deckPoints s \<le> pointCap s"
  shows "deckPoints (onClick s (ListAdd i)) \<le> pointCap (onClick s (ListAdd i))"
proof (cases "i < length (filtered s) \<and> \<not> disabled s (filtered s ! i)")
  case False
  with assms show ?thesis by auto
next
  case True
  let ?u = "filtered s ! i"
  from True have "?u \<in> set (filtered s)"
    by simp
  then have "?u \<in> set (units s)"
    using filtered_subset [of s] by blast
  with assms have "find (\<lambda>x. u_id x = u_id ?u) (units s) = Some ?u"
    by (simp add: find_distinct_id)
  moreover from True have "deckPoints s + pointsOf ?u \<le> pointCap s"
    by (simp add: disabled_def)
  moreover have "pointCap (addToDeck ?u s) = pointCap s"
    by (simp add: addToDeck_def Let_def)
  ultimately show ?thesis
    using True assms by (simp add: deckPoints_addToDeck)
qed

text \<open>
  Claim C1. Every deck reached from the empty deck by the add and remove operations of
  the component stays within the point cap. The component does otherwise: the \<^verbatim>\<open>+\<close> button
  of the deck panel calls \<^verbatim>\<open>addToDeck\<close> with no gate, and \<^verbatim>\<open>addToDeck\<close> tests the copy cap
  only. With one 100-point unit owned four times and cap 150, one click on \<^verbatim>\<open>+ Add\<close> in
  the unit list and one click on \<^verbatim>\<open>+\<close> in the deck panel give a deck of 200 points.
\<close>

theorem panel_add_exceeds_point_cap:
  "deck exOwnsFour = []
   \<and> deck (onClicks exOwnsFour [ListAdd 0, PanelAdd 0]) = [(''bismarck'', 2)]
   \<and> deckPoints (onClicks exOwnsFour [ListAdd 0, PanelAdd 0]) = 200
   \<and> pointCap (onClicks exOwnsFour [ListAdd 0, PanelAdd 0]) = 150"
  by code_simp

text \<open>The gated button refuses that second copy.\<close>

lemma list_add_refuses_second_copy:
  "disabled (onClicks exOwnsFour [ListAdd 0]) bismarck
   \<and> deck (onClicks exOwnsFour [ListAdd 0, ListAdd 0]) = [(''bismarck'', 1)]"
  by code_simp

section \<open>The recommender\<close>

lemma addCopies_spent_le:
  "spent \<le> cap \<Longrightarrow> snd (addCopies cap limit u (nxt, spent)) \<le> cap"
proof (induction cap limit u "(nxt, spent)" arbitrary: nxt spent rule: addCopies.induct)
  case (1 cap limit u nxt spent)
  then show ?case
    by (subst addCopies.simps) auto
qed

lemma addCopies_count_le:
  "inDeck (fst (addCopies cap limit u (nxt, spent))) k
     \<le> (if k = u_id u then max limit (inDeck nxt k) else inDeck nxt k)"
proof (induction cap limit u "(nxt, spent)" arbitrary: nxt spent rule: addCopies.induct)
  case (1 cap limit u nxt spent)
  show ?case
    apply (subst addCopies.simps)
    using 1 by (auto simp: inDeck_update split: if_splits)
qed

lemma addCopies_count_ge:
  "inDeck nxt k \<le> inDeck (fst (addCopies cap limit u (nxt, spent))) k"
proof (induction cap limit u "(nxt, spent)" arbitrary: nxt spent rule: addCopies.induct)
  case (1 cap limit u nxt spent)
  show ?case
    apply (subst addCopies.simps)
    using 1 by (auto simp: inDeck_update split: if_splits)
qed

lemma recommendLoop_spent_le:
  "snd st \<le> cap \<Longrightarrow> snd (recommendLoop cap own us st) \<le> cap"
proof (induction us arbitrary: st)
  case Nil
  then show ?case by simp
next
  case (Cons u us)
  obtain nxt spent where st: "st = (nxt, spent)" by (cases st)
  with Cons.prems have "snd (addCopies cap (maxCopies own u) u st) \<le> cap"
    by (simp add: addCopies_spent_le)
  with Cons.IH show ?case
    by (simp add: Let_def)
qed

lemma recommendLoop_default_cap:
  assumes "own k = None"
  shows "inDeck (fst st) k \<le> 99 \<Longrightarrow> inDeck (fst (recommendLoop cap own us st)) k \<le> 99"
proof (induction us arbitrary: st)
  case Nil
  then show ?case by simp
next
  case (Cons u us)
  obtain nxt spent where st: "st = (nxt, spent)" by (cases st)
  have "inDeck (fst (addCopies cap (maxCopies own u) u st)) k \<le> 99"
  proof (cases "k = u_id u")
    case True
    with assms have "maxCopies own u = 99"
      by (simp add: maxCopies_def)
    with addCopies_count_le [of cap "maxCopies own u" u nxt spent k] True Cons.prems st
    show ?thesis by simp
  next
    case False
    with addCopies_count_le [of cap "maxCopies own u" u nxt spent k] Cons.prems st
    show ?thesis by simp
  qed
  with Cons.IH show ?case
    by (simp add: Let_def)
qed

text \<open>
  Against claim C3 as written (every copy the recommender adds leaves at least 3 points
  of headroom): with one 50-point unit and cap 50 the recommender adds the unit and
  leaves no headroom at all.
\<close>

theorem recommend_fills_cap_exactly:
  "fst (recommended exCap50) = [(''scharnhorst'', 1)]
   \<and> snd (recommended exCap50) = 50
   \<and> deck (recommend exCap50) = [(''scharnhorst'', 1)]
   \<and> \<not> 3 \<le> pointCap exCap50 - snd (recommended exCap50)"
  by code_simp

text \<open>What one run of the inner loop does, with the number of copies named.\<close>

lemma addCopies_walk:
  "\<exists>n. 0 \<le> n
     \<and> addCopies cap limit u (nxt, spent)
         = (if n = 0 then nxt else AList.update (u_id u) (inDeck nxt (u_id u) + n) nxt,
            spent + n * pointsOf u)
     \<and> (\<forall>j. 0 \<le> j \<and> j < n \<longrightarrow>
           spent + (j + 1) * pointsOf u \<le> cap \<and> inDeck nxt (u_id u) + j < limit)
     \<and> (\<forall>j. 0 \<le> j \<and> j + 1 < n \<longrightarrow> 3 \<le> cap - (spent + (j + 1) * pointsOf u))
     \<and> ((0 < n \<and> cap - (spent + n * pointsOf u) < 3)
         \<or> cap < spent + n * pointsOf u + pointsOf u
         \<or> limit \<le> inDeck nxt (u_id u) + n)"
proof (induction cap limit u "(nxt, spent)" arbitrary: nxt spent rule: addCopies.induct)
  case (1 cap limit u nxt spent)
  let ?k = "u_id u" and ?p = "pointsOf u"
  let ?c = "inDeck nxt ?k"
  let ?nxt' = "AList.update ?k (?c + 1) nxt"
  consider (full) "\<not> spent + ?p \<le> cap"
    | (capped) "spent + ?p \<le> cap" "limit \<le> ?c"
    | (last) "spent + ?p \<le> cap" "\<not> limit \<le> ?c" "cap - (spent + ?p) < 3"
    | (more) "spent + ?p \<le> cap" "\<not> limit \<le> ?c" "\<not> cap - (spent + ?p) < 3"
    by blast
  then show ?case
  proof cases
    case full
    then have "addCopies cap limit u (nxt, spent) = (nxt, spent)"
      by (subst addCopies.simps) simp
    with full show ?thesis
      by (intro exI [of _ 0]) simp
  next
    case capped
    then have "addCopies cap limit u (nxt, spent) = (nxt, spent)"
      by (subst addCopies.simps) simp
    with capped show ?thesis
      by (intro exI [of _ 0]) simp
  next
    case last
    then have "addCopies cap limit u (nxt, spent) = (?nxt', spent + ?p)"
      by (subst addCopies.simps) simp
    moreover have "spent + (j + 1) * ?p \<le> cap \<and> ?c + j < limit" if "0 \<le> j" "j < 1" for j
    proof -
      from that have "j = 0" by simp
      with last show ?thesis by simp
    qed
    ultimately show ?thesis
      using last by (intro exI [of _ 1]) simp
  next
    case more
    then have eq: "addCopies cap limit u (nxt, spent) = addCopies cap limit u (?nxt', spent + ?p)"
      by (subst addCopies.simps) simp
    have c': "inDeck ?nxt' ?k = ?c + 1"
      by (simp add: inDeck_update)
    from "1.hyps" [OF more] obtain m where m: "0 \<le> m"
      and res: "addCopies cap limit u (?nxt', spent + ?p)
         = (if m = 0 then ?nxt' else AList.update ?k (inDeck ?nxt' ?k + m) ?nxt',
            spent + ?p + m * ?p)"
      and pre: "\<forall>j. 0 \<le> j \<and> j < m \<longrightarrow>
           spent + ?p + (j + 1) * ?p \<le> cap \<and> inDeck ?nxt' ?k + j < limit"
      and margin: "\<forall>j. 0 \<le> j \<and> j + 1 < m \<longrightarrow> 3 \<le> cap - (spent + ?p + (j + 1) * ?p)"
      and stop: "(0 < m \<and> cap - (spent + ?p + m * ?p) < 3)
         \<or> cap < spent + ?p + m * ?p + ?p
         \<or> limit \<le> inDeck ?nxt' ?k + m"
      by blast
    have shift: "spent + ?p + j * ?p = spent + (j + 1) * ?p" for j
      by (simp add: algebra_simps)
    have A: "addCopies cap limit u (nxt, spent)
         = (if m + 1 = 0 then nxt else AList.update ?k (?c + (m + 1)) nxt,
            spent + (m + 1) * ?p)"
      using m eq res c' by (simp add: algebra_simps)
    have B: "spent + (j + 1) * ?p \<le> cap \<and> ?c + j < limit" if "0 \<le> j" "j < m + 1" for j
    proof (cases "j = 0")
      case True
      with more show ?thesis by simp
    next
      case False
      with that pre [rule_format, of "j - 1"] c' shift [of j] show ?thesis
        by simp
    qed
    have C: "3 \<le> cap - (spent + (j + 1) * ?p)" if "0 \<le> j" "j + 1 < m + 1" for j
    proof (cases "j = 0")
      case True
      with more show ?thesis by simp
    next
      case False
      with that margin [rule_format, of "j - 1"] shift [of j] show ?thesis
        by simp
    qed
    have D: "(0 < m + 1 \<and> cap - (spent + (m + 1) * ?p) < 3)
         \<or> cap < spent + (m + 1) * ?p + ?p
         \<or> limit \<le> ?c + (m + 1)"
      using stop m c' shift [of m] by auto
    from m A B C D show ?thesis
      by (intro exI [of _ "m + 1"]) simp
  qed
qed

lemma copiesAdded_walk:
  "0 \<le> copiesAdded cap limit u (nxt, spent)
   \<and> addCopies cap limit u (nxt, spent)
       = (if copiesAdded cap limit u (nxt, spent) = 0 then nxt
          else AList.update (u_id u)
                 (inDeck nxt (u_id u) + copiesAdded cap limit u (nxt, spent)) nxt,
          spent + copiesAdded cap limit u (nxt, spent) * pointsOf u)
   \<and> (\<forall>j. 0 \<le> j \<and> j < copiesAdded cap limit u (nxt, spent) \<longrightarrow>
         spent + (j + 1) * pointsOf u \<le> cap \<and> inDeck nxt (u_id u) + j < limit)
   \<and> (\<forall>j. 0 \<le> j \<and> j + 1 < copiesAdded cap limit u (nxt, spent) \<longrightarrow>
         3 \<le> cap - (spent + (j + 1) * pointsOf u))
   \<and> ((0 < copiesAdded cap limit u (nxt, spent)
          \<and> cap - (spent + copiesAdded cap limit u (nxt, spent) * pointsOf u) < 3)
       \<or> cap < spent + copiesAdded cap limit u (nxt, spent) * pointsOf u + pointsOf u
       \<or> limit \<le> inDeck nxt (u_id u) + copiesAdded cap limit u (nxt, spent))"
proof -
  from addCopies_walk [of cap limit u nxt spent] obtain n where n: "0 \<le> n"
    and res: "addCopies cap limit u (nxt, spent)
         = (if n = 0 then nxt else AList.update (u_id u) (inDeck nxt (u_id u) + n) nxt,
            spent + n * pointsOf u)"
    and rest: "(\<forall>j. 0 \<le> j \<and> j < n \<longrightarrow>
           spent + (j + 1) * pointsOf u \<le> cap \<and> inDeck nxt (u_id u) + j < limit)"
      "(\<forall>j. 0 \<le> j \<and> j + 1 < n \<longrightarrow> 3 \<le> cap - (spent + (j + 1) * pointsOf u))"
      "((0 < n \<and> cap - (spent + n * pointsOf u) < 3)
         \<or> cap < spent + n * pointsOf u + pointsOf u
         \<or> limit \<le> inDeck nxt (u_id u) + n)"
    by blast
  have "copiesAdded cap limit u (nxt, spent) = n"
    by (simp add: copiesAdded_def res inDeck_update)
  with n res rest show ?thesis
    by simp
qed

text \<open>The outer loop gives each candidate its run, in order, until one run ends it.\<close>

lemma find_map_comp: "find P (map f xs) = map_option f (find (P \<circ> f) xs)"
  by (induction xs) simp_all

lemma afterCandidates_Suc:
  "afterCandidates cap own (u # us) st (Suc i)
     = afterCandidates cap own us (addCopies cap (maxCopies own u) u st) i"
  by (simp add: afterCandidates_def)

lemma candidatesTaken_Cons:
  "candidatesTaken cap own (u # us) st
     = (if cap - 1 \<le> snd (addCopies cap (maxCopies own u) u st) then 1
        else Suc (candidatesTaken cap own us (addCopies cap (maxCopies own u) u st)))"
proof -
  have one: "afterCandidates cap own (u # us) st 1 = addCopies cap (maxCopies own u) u st"
    by (simp add: afterCandidates_def)
  have list: "[1..<Suc (length (u # us))] = 1 # map Suc [1..<Suc (length us)]"
    by (simp add: upt_conv_Cons map_Suc_upt del: upt_Suc)
  show ?thesis
    unfolding candidatesTaken_def list find.simps one find_map_comp comp_def afterCandidates_Suc
    by (cases "find (\<lambda>i. cap - 1 \<le> snd (afterCandidates cap own us
                  (addCopies cap (maxCopies own u) u st) i)) [1..<Suc (length us)]")
       (simp_all del: upt_Suc)
qed

lemma recommendLoop_walk:
  "recommendLoop cap own us st = afterCandidates cap own us st (candidatesTaken cap own us st)"
proof (induction us arbitrary: st)
  case Nil
  show ?case by (simp add: afterCandidates_def candidatesTaken_def)
next
  case (Cons u us)
  let ?st' = "addCopies cap (maxCopies own u) u st"
  have one: "afterCandidates cap own (u # us) st (Suc 0) = ?st'"
    by (simp add: afterCandidates_def)
  show ?case
  proof (cases "cap - 1 \<le> snd ?st'")
    case True
    with one show ?thesis by (simp add: Let_def candidatesTaken_Cons)
  next
    case False
    with Cons.IH [of ?st'] show ?thesis
      by (simp add: Let_def candidatesTaken_Cons afterCandidates_Suc)
  qed
qed

text \<open>The candidates are walked by falling score, equal scores in catalog order.\<close>

lemma scored_order:
  "sorted (map (\<lambda>u. - score u) (scored s))
   \<and> filter (\<lambda>u. score u = x) (scored s) = filter (\<lambda>u. score u = x) (filtered s)"
proof -
  have "filter (\<lambda>u. - score u = - x) (sort_key (\<lambda>u. - score u) (filtered s))
          = filter (\<lambda>u. - score u = - x) (filtered s)"
    by (rule sort_key_stable)
  then show ?thesis
    by (simp add: scored_def)
qed

text \<open>
  Claim C3, amended. For every filtered catalog, ownership map and point cap the
  recommender walks the candidates by falling score (ties in catalog order) and adds
  copies of each one at a time. With \<open>n\<close> the number of copies a run of the inner loop
  adds for its candidate, the run returns the deck with \<open>n\<close> more copies and \<open>n\<close> times
  the points more spent, and:
  \<^item> each of the \<open>n\<close> copies fits the cap and is below the copy limit when it is added, so
    it leaves a headroom of at least 0;
  \<^item> each copy but the last leaves at least 3 points of headroom, the last may leave
    less: the margin is tested after the add;
  \<^item> the run ends exactly when the copy just added leaves less than 3 points, or one
    more copy would pass the cap, or the copy limit is reached.
  The outer loop gives the candidates their runs in order and ends after the first run
  that leaves the points spent at \<open>pointCap - 1\<close> or above; its result replaces the deck.
  The points spent never pass a cap that is not negative.
\<close>

theorem recommend_margin_checked_after_add:
  "0 \<le> copiesAdded cap limit u (nxt, spent)
   \<and> addCopies cap limit u (nxt, spent)
       = (if copiesAdded cap limit u (nxt, spent) = 0 then nxt
          else AList.update (u_id u)
                 (inDeck nxt (u_id u) + copiesAdded cap limit u (nxt, spent)) nxt,
          spent + copiesAdded cap limit u (nxt, spent) * pointsOf u)
   \<and> (\<forall>j. 0 \<le> j \<and> j < copiesAdded cap limit u (nxt, spent) \<longrightarrow>
         spent + (j + 1) * pointsOf u \<le> cap \<and> inDeck nxt (u_id u) + j < limit)
   \<and> (\<forall>j. 0 \<le> j \<and> j + 1 < copiesAdded cap limit u (nxt, spent) \<longrightarrow>
         3 \<le> cap - (spent + (j + 1) * pointsOf u))
   \<and> ((0 < copiesAdded cap limit u (nxt, spent)
          \<and> cap - (spent + copiesAdded cap limit u (nxt, spent) * pointsOf u) < 3)
       \<or> cap < spent + copiesAdded cap limit u (nxt, spent) * pointsOf u + pointsOf u
       \<or> limit \<le> inDeck nxt (u_id u) + copiesAdded cap limit u (nxt, spent))
   \<and> (spent \<le> cap \<longrightarrow> snd (addCopies cap limit u (nxt, spent)) \<le> cap)
   \<and> sorted (map (\<lambda>u. - score u) (scored s))
   \<and> filter (\<lambda>u. score u = x) (scored s) = filter (\<lambda>u. score u = x) (filtered s)
   \<and> recommended s
       = afterCandidates (pointCap s) (ownership s) (scored s) ([], 0)
           (candidatesTaken (pointCap s) (ownership s) (scored s) ([], 0))
   \<and> deck (recommend s) = fst (recommended s)
   \<and> (0 \<le> pointCap s \<longrightarrow> snd (recommended s) \<le> pointCap s)"
proof -
  have loop: "snd (recommended s) \<le> pointCap s" if "0 \<le> pointCap s"
    unfolding recommended_def using that by (intro recommendLoop_spent_le) simp
  have walk: "recommended s
       = afterCandidates (pointCap s) (ownership s) (scored s) ([], 0)
           (candidatesTaken (pointCap s) (ownership s) (scored s) ([], 0))"
    unfolding recommended_def by (rule recommendLoop_walk)
  have replaced: "deck (recommend s) = fst (recommended s)"
    by (simp add: recommend_def)
  from copiesAdded_walk [of cap limit u nxt spent] scored_order [of s x] loop walk replaced
    addCopies_spent_le [of spent cap limit u nxt]
  show ?thesis
    by blast
qed

theorem recommend_margin_checked_after_add_witness:
  "copiesAdded 50 99 destroyer ([], 0) = 5
   \<and> addCopies 50 99 destroyer ([], 0) = ([(''destroyer'', 5)], 50)
   \<and> 0 + (3 + 1) * pointsOf destroyer \<le> 50
   \<and> 3 \<le> 50 - (0 + (3 + 1) * pointsOf destroyer)
   \<and> 50 - (0 + 5 * pointsOf destroyer) < 3
   \<and> snd (addCopies 50 99 destroyer ([], 0)) \<le> 50
   \<and> map u_id (scored exTwoCandidates) = [''cruiser'', ''destroyer'']
   \<and> candidatesTaken (pointCap exTwoCandidates) (ownership exTwoCandidates)
        (scored exTwoCandidates) ([], 0) = 2
   \<and> recommended exTwoCandidates = ([(''cruiser'', 2), (''destroyer'', 1)], 50)
   \<and> deck (recommend exTwoCandidates) = [(''cruiser'', 2), (''destroyer'', 1)]
   \<and> snd (recommended exTwoCandidates) \<le> pointCap exTwoCandidates"
proof -
  note T = recommend_margin_checked_after_add
             [where cap = 50 and limit = 99 and u = destroyer and nxt = "[]" and spent = 0
                and s = exTwoCandidates and x = 1]
  have five: "copiesAdded 50 99 destroyer ([], 0) = 5"
    by code_simp
  have run: "addCopies 50 99 destroyer ([], 0) = ([(''destroyer'', 5)], 50)"
    by code_simp
  have order: "map u_id (scored exTwoCandidates) = [''cruiser'', ''destroyer'']"
    by code_simp
  have taken: "candidatesTaken (pointCap exTwoCandidates) (ownership exTwoCandidates)
        (scored exTwoCandidates) ([], 0) = 2"
    by code_simp
  have result: "afterCandidates (pointCap exTwoCandidates) (ownership exTwoCandidates)
        (scored exTwoCandidates) ([], 0) 2 = ([(''cruiser'', 2), (''destroyer'', 1)], 50)"
    by code_simp
  have cap: "0 \<le> pointCap exTwoCandidates"
    by (simp add: exTwoCandidates_def)
  have zero: "(0::int) \<le> 50"
    by simp
  from T five have fits: "\<forall>j. 0 \<le> j \<and> j < 5 \<longrightarrow>
         0 + (j + 1) * pointsOf destroyer \<le> 50 \<and> inDeck [] (u_id destroyer) + j < 99"
    and margin: "\<forall>j. 0 \<le> j \<and> j + 1 < 5 \<longrightarrow> 3 \<le> 50 - (0 + (j + 1) * pointsOf destroyer)"
    by simp_all
  from T five have stop: "50 - (0 + 5 * pointsOf destroyer) < 3
       \<or> 50 < 0 + 5 * pointsOf destroyer + pointsOf destroyer
       \<or> 99 \<le> inDeck [] (u_id destroyer) + 5"
    by simp
  have a: "0 + (3 + 1) * pointsOf destroyer \<le> 50"
    using fits [rule_format, of 3] by simp
  have b: "3 \<le> 50 - (0 + (3 + 1) * pointsOf destroyer)"
    using margin [rule_format, of 3] by simp
  have c: "50 - (0 + 5 * pointsOf destroyer) < 3"
    using stop by (simp add: pointsOf_def destroyer_def inDeck_def)
  from T have rec: "recommended exTwoCandidates
       = afterCandidates (pointCap exTwoCandidates) (ownership exTwoCandidates)
           (scored exTwoCandidates) ([], 0)
           (candidatesTaken (pointCap exTwoCandidates) (ownership exTwoCandidates)
              (scored exTwoCandidates) ([], 0))"
    and dk: "deck (recommend exTwoCandidates) = fst (recommended exTwoCandidates)"
    and le: "snd (recommended exTwoCandidates) \<le> pointCap exTwoCandidates"
    and le': "snd (addCopies 50 99 destroyer ([], 0)) \<le> 50"
    using cap zero by blast+
  from rec taken result have res: "recommended exTwoCandidates
       = ([(''cruiser'', 2), (''destroyer'', 1)], 50)"
    by simp
  from five run a b c le' order taken res dk le show ?thesis
    by simp
qed

text \<open>
  Against claim C5 as written (without an ownership record the copy cap is unlimited): a
  deck with 99 copies of a unit that has no ownership record takes no further copy, and
  the recommender stops at 99 copies of a 1-point unit with 51 points of the cap unspent.
\<close>

theorem default_copy_cap_rejects_at_99:
  "ownership exNinetyNine (u_id pt_boat) = None
   \<and> inDeck (deck exNinetyNine) (u_id pt_boat) = 99
   \<and> deck (addToDeck pt_boat exNinetyNine) = deck exNinetyNine
   \<and> recommended exNinetyNine = ([(''pt_boat'', 99)], 99)
   \<and> pointCap exNinetyNine = 150"
  by code_simp

text \<open>
  Claim C5, amended. When a unit has no ownership record its copy cap is 99: one more
  copy is added exactly when the deck holds fewer than 99 copies, the \<^verbatim>\<open>+ Add\<close> button is
  disabled from 99 copies on, and the recommender never puts more than 99 copies of the
  unit in a deck.
\<close>

theorem default_copy_cap_is_99:
  assumes "ownership s (u_id u) = None"
  shows "addToDeck u s =
           (if 99 \<le> inDeck (deck s) (u_id u) then s
            else s\<lparr> deck := AList.update (u_id u) (inDeck (deck s) (u_id u) + 1) (deck s) \<rparr>)
     \<and> (99 \<le> inDeck (deck s) (u_id u) \<longrightarrow> disabled s u)
     \<and> inDeck (deck (recommend s)) (u_id u) \<le> 99"
proof -
  have "inDeck (fst (recommended s)) (u_id u) \<le> 99"
    unfolding recommended_def
    using assms
    by (rule recommendLoop_default_cap [where own = "ownership s" and k = "u_id u"])
       (simp add: inDeck_def)
  with assms show ?thesis
    by (simp add: addToDeck_def disabled_def maxCopies_def recommend_def Let_def)
qed

theorem default_copy_cap_is_99_witness:
  "ownership exNinetyNine (u_id pt_boat) = None
   \<and> 99 \<le> inDeck (deck exNinetyNine) (u_id pt_boat)
   \<and> addToDeck pt_boat exNinetyNine = exNinetyNine
   \<and> disabled exNinetyNine pt_boat
   \<and> inDeck (deck (recommend exNinetyNine)) (u_id pt_boat) \<le> 99"
proof -
  have none: "ownership exNinetyNine (u_id pt_boat) = None"
    by (simp add: exNinetyNine_def signedIn_def init_def)
  have full: "99 \<le> inDeck (deck exNinetyNine) (u_id pt_boat)"
    by (simp add: exNinetyNine_def pt_boat_def inDeck_def)
  from default_copy_cap_is_99 [OF none] none full show ?thesis
    by simp
qed

section \<open>The wait-time parser\<close>

text \<open>A message without a digit matches neither pattern, and the fallback applies.\<close>

lemma regexMatch_no_digit:
  "\<forall>c \<in> set m. \<not> isDigit c \<Longrightarrow> regexMatch ws m = None"
  by (induction m) simp_all

lemma waitOrDefault_no_digit:
  "\<forall>c \<in> set m. \<not> isDigit c \<Longrightarrow> waitOrDefault (Some m) = 60"
  by (simp add: waitOrDefault_def parseWaitSeconds_def regexMatch_no_digit)

text \<open>The minute, the empty message, a missing message, and the singular and short forms
  of the second come out as intended.\<close>

lemma parseWaitSeconds_examples:
  "parseWaitSeconds (Some ''wait 1 minute'') = Some 60"
  "waitOrDefault (Some ''you can only request this after 1 minute.'') = 60"
  "parseWaitSeconds (Some []) = None"
  "waitOrDefault (Some []) = 60"
  "waitOrDefault None = 60"
  "parseWaitSeconds (Some ''after 54 second'') = Some 54"
  "parseWaitSeconds (Some ''after 54 sec.'') = Some 54"
  "parseWaitSeconds (Some ''after 54s'') = Some 54"
  by code_simp+

text \<open>
  Claim C2. The wait extracted from a message containing \<^verbatim>\<open>after 54 seconds\<close> is 54, from
  \<^verbatim>\<open>1 minute\<close> it is 60, and it is the fallback 60 for an empty or unit-less message.
  The component does otherwise on the first of these: in \<^verbatim>\<open>seconds\<close> each unit word of
  the pattern (\<^verbatim>\<open>second\<close>, \<^verbatim>\<open>sec\<close>, \<^verbatim>\<open>s\<close>) is followed by a letter, so \<^verbatim>\<open>\b\<close> fails, the
  parser returns \<^verbatim>\<open>null\<close>, and the catch site falls back to 60. The same happens on the
  message the comment in the source quotes.
\<close>

theorem parseWaitSeconds_plural_seconds_unmatched:
  "parseWaitSeconds (Some ''after 54 seconds'') = None
   \<and> waitOrDefault (Some ''after 54 seconds'') = 60
   \<and> parseWaitSeconds
        (Some ''For security purposes, you can only request this after 54 seconds.'') = None
   \<and> waitOrDefault
        (Some ''For security purposes, you can only request this after 54 seconds.'') = 60"
  by code_simp

section \<open>The cooldown\<close>

lemma countdown_pos: "0 < countdown until t \<longleftrightarrow> t < until"
proof -
  have "0 < \<lceil>real_of_int (until - t) / 1000\<rceil> \<longleftrightarrow> 0 < real_of_int (until - t) / 1000"
    by (rule zero_less_ceiling)
  also have "\<dots> \<longleftrightarrow> t < until"
    by simp
  finally show ?thesis
    by (simp add: countdown_def less_max_iff_disj)
qed

text \<open>The countdown in integer arithmetic.\<close>

lemma countdown_div: "countdown until t = max 0 (- ((t - until) div 1000))"
  unfolding countdown_def
  using ceiling_divide_eq_div [where ?'a = real, of "until - t" 1000] by simp

text \<open>The effect sets the countdown to what one tick at the same instant computes.\<close>

lemma cooldownEffect_tick: "cooldownEffect t s = tick t s"
  using countdown_pos [of "cooldownUntil s" t]
  by (auto simp: cooldownEffect_def tick_def countdown_def)

text \<open>
  Against claim C9 as written (at every instant the countdown shown equals the formula,
  and from the deadline on it reads 0 and sign-in is enabled): the countdown shown is the
  one computed by the last tick. With the deadline at 1500, the effect at instant 0 and
  the tick at 1000 leave 1 on display; at instant 1600, before the tick of 2000, the
  deadline has passed and the formula gives 0, yet the button is disabled and a submit
  sends nothing.
\<close>

theorem countdown_stale_between_ticks:
  "cooldownLeft (tick 1000 (cooldownEffect 0 exCooling)) = 1
   \<and> cooldownUntil (tick 1000 (cooldownEffect 0 exCooling)) \<le> 1600
   \<and> countdown (cooldownUntil (tick 1000 (cooldownEffect 0 exCooling))) 1600 = 0
   \<and> signInDisabled (tick 1000 (cooldownEffect 0 exCooling))
   \<and> snd (onMagicSubmit LinkSent 1600 (tick 1000 (cooldownEffect 0 exCooling))) = []"
  by (simp add: exCooling_def init_def tick_def cooldownEffect_def countdown_div
      signInDisabled_def onMagicSubmit_def Let_def)

text \<open>
  Claim C9, amended. The countdown shown is the value set by the latest tick, at its
  instant \<open>t\<close>: \<open>max 0 \<lceil>(until - t) / 1000\<rceil>\<close>, which is positive exactly when \<open>t\<close> is before
  the deadline. After a tick before the deadline a submit, at whatever instant, is
  rejected without a call of the sign-in collaborator and leaves the deadline alone.
  After a tick at or past the deadline the countdown reads 0, the deadline is still
  stored, the button is enabled for a non-empty email, and a submit calls the
  collaborator.
\<close>

theorem cooldown_tick_gates_sign_in:
  "cooldownLeft (tick t s) = max 0 \<lceil>real_of_int (cooldownUntil s - t) / 1000\<rceil>
   \<and> (0 < cooldownLeft (tick t s) \<longleftrightarrow> t < cooldownUntil s)
   \<and> (t < cooldownUntil s \<longrightarrow>
        snd (onMagicSubmit res now (tick t s)) = []
        \<and> cooldownUntil (fst (onMagicSubmit res now (tick t s))) = cooldownUntil s)
   \<and> (cooldownUntil s \<le> t \<longrightarrow>
        cooldownLeft (tick t s) = 0
        \<and> cooldownUntil (tick t s) = cooldownUntil s
        \<and> (signInDisabled (tick t s) \<longleftrightarrow> email s = [])
        \<and> (email s \<noteq> [] \<longrightarrow> snd (onMagicSubmit res now (tick t s)) = [email s]))"
proof -
  have pos: "0 < countdown (cooldownUntil s) t \<longleftrightarrow> t < cooldownUntil s"
    by (rule countdown_pos)
  have nonneg: "0 \<le> countdown (cooldownUntil s) t"
    by (simp add: countdown_def)
  have left: "cooldownLeft (tick t s) = countdown (cooldownUntil s) t"
    by (simp add: tick_def)
  have zero: "cooldownUntil s \<le> t \<Longrightarrow> countdown (cooldownUntil s) t = 0"
    using pos nonneg by linarith
  show ?thesis
    using pos zero
    by (auto simp: left onMagicSubmit_def signInDisabled_def Let_def tick_def countdown_def
        split: signin_result.splits)
qed

theorem cooldown_tick_gates_sign_in_witness:
  "(1000::int) < cooldownUntil exCooling
   \<and> 0 < cooldownLeft (tick 1000 exCooling)
   \<and> snd (onMagicSubmit LinkSent 1200 (tick 1000 exCooling)) = []
   \<and> cooldownUntil (fst (onMagicSubmit LinkSent 1200 (tick 1000 exCooling))) = 1500
   \<and> cooldownUntil exCooling \<le> 2000
   \<and> email exCooling \<noteq> []
   \<and> cooldownLeft (tick 2000 exCooling) = 0
   \<and> cooldownUntil (tick 2000 exCooling) = 1500
   \<and> \<not> signInDisabled (tick 2000 exCooling)
   \<and> snd (onMagicSubmit LinkSent 2000 (tick 2000 exCooling)) = [''a@b.c'']"
proof -
  have pre: "(1000::int) < cooldownUntil exCooling" "cooldownUntil exCooling \<le> 2000"
    "email exCooling \<noteq> []" "cooldownUntil exCooling = 1500" "email exCooling = ''a@b.c''"
    by (simp_all add: exCooling_def init_def)
  from cooldown_tick_gates_sign_in [of 1000 exCooling LinkSent 1200]
       cooldown_tick_gates_sign_in [of 2000 exCooling LinkSent 2000]
       pre
  show ?thesis by simp
qed

end
